theory Spec2Isabelle
  imports Complex_Main "HOL-Library.Word"
begin

section \<open>Bytes, chunk queues and errors\<close>

text \<open>
  A \<^verbatim>\<open>Uint8Array\<close> is a list of bytes; the chunk queue \<^verbatim>\<open>Array<Uint8Array>\<close> is a list of
  such lists. Every \<^verbatim>\<open>throw\<close> of the source is a value of \<open>error\<close>:
  \<^verbatim>\<open>IncompleteChunksError\<close> is the class of \<^verbatim>\<open>index.ts\<close>, \<open>GenericError\<close> is
  \<^verbatim>\<open>throw new Error()\<close>, the other three are raised by the JavaScript runtime.
\<close>

type_synonym byte = "8 word"
type_synonym bytes = "byte list"

datatype error = IncompleteChunksError | GenericError | TypeError | RangeError | SyntaxError

subsection \<open>splitChunks\<close>

text \<open>
  The \<^verbatim>\<open>for\<close> loop of \<^verbatim>\<open>splitChunks\<close> (index.ts, lines 157-173), with its four mutable
  variables as arguments: the queue \<open>chunks\<close> (mutated in place by \<^verbatim>\<open>chunks[i] = ...\<close>),
  \<open>poppedChunks\<close>, \<open>accumelatedLength\<close> and \<open>splitChunksAt\<close>. The result is the state
  at the exit of the loop.
\<close>

function split_loop ::
  "bytes list \<Rightarrow> nat \<Rightarrow> nat \<Rightarrow> bytes list \<Rightarrow> nat \<Rightarrow> nat \<Rightarrow> bytes list \<times> bytes list \<times> nat \<times> nat"
where
  "split_loop chunks len i poppedChunks accumelatedLength splitChunksAt =
     (if i < length chunks then
        (let chunk = chunks ! i; chunkLength = length chunk in
         if accumelatedLength + chunkLength \<le> len then
           split_loop chunks len (i + 1) (poppedChunks @ [chunk])
             (accumelatedLength + chunkLength) (i + 1)
         else
           (let splitChunkAt = len - accumelatedLength in
            if splitChunkAt > 0 then
              (chunks[i := drop splitChunkAt chunk],
               poppedChunks @ [take splitChunkAt chunk], len, splitChunksAt)
            else (chunks, poppedChunks, accumelatedLength, splitChunksAt)))
      else (chunks, poppedChunks, accumelatedLength, splitChunksAt))"
  by pat_completeness auto
termination
  by (relation "measure (\<lambda>(chunks, len, i, p, a, s). length chunks - i)") auto

declare split_loop.simps [simp del]

text \<open>
  \<^verbatim>\<open>splitChunks(chunks, length)\<close> returns the bytes it cut out, or the error it throws,
  together with the queue as it is when the call ends. The thrown case happens before
  \<^verbatim>\<open>chunks.splice\<close>; the copy loop into \<^verbatim>\<open>new Uint8Array(length)\<close> lays the popped chunks
  end to end.
\<close>

definition splitChunks :: "bytes list \<Rightarrow> nat \<Rightarrow> (error + bytes) \<times> bytes list" where
  "splitChunks chunks len =
     (case split_loop chunks len 0 [] 0 0 of
        (chunks', poppedChunks, accumelatedLength, splitChunksAt) \<Rightarrow>
          if accumelatedLength < len then (Inl IncompleteChunksError, chunks')
          else (Inr (concat poppedChunks),
                if splitChunksAt > 0 then drop splitChunksAt chunks' else chunks'))"

section \<open>Typed arrays on the host\<close>

text \<open>
  A typed array is a view of an \<^verbatim>\<open>ArrayBuffer\<close>: the constructor that made it, the bytes of
  the underlying buffer (\<^verbatim>\<open>data.buffer\<close>), the offset of its first byte in that buffer
  (\<^verbatim>\<open>data.byteOffset\<close>) and the number of its elements (\<^verbatim>\<open>data.length\<close>). An array made by
  \<^verbatim>\<open>subarray\<close> or by \<^verbatim>\<open>new K(buffer, byteOffset, length)\<close>, and a \<^verbatim>\<open>Buffer\<close> of Node, cover a
  part of their buffer only, so that \<^verbatim>\<open>data.buffer\<close> may hold more than \<^verbatim>\<open>data.byteLength\<close>
  bytes. Elements wider than a byte lie in the buffer in the byte order of the host.
  This development fixes a little-endian host, the platform on which the repository's
  tests hold (they compare the output of \<^verbatim>\<open>encode\<close> with its default byte order to
  little-endian vectors); \<open>le_bytes\<close> and \<open>le_value\<close> are the host's layout of an unsigned
  element.
\<close>

datatype array_kind =
  Uint8Array | Uint16Array | Uint32Array | Int8Array | Int16Array | Int32Array
  | Float32Array | Float64Array

datatype typed_array = View array_kind bytes nat nat

fun BYTES_PER_ELEMENT :: "array_kind \<Rightarrow> nat" where
  "BYTES_PER_ELEMENT Uint8Array = 1"
| "BYTES_PER_ELEMENT Uint16Array = 2"
| "BYTES_PER_ELEMENT Uint32Array = 4"
| "BYTES_PER_ELEMENT Int8Array = 1"
| "BYTES_PER_ELEMENT Int16Array = 2"
| "BYTES_PER_ELEMENT Int32Array = 4"
| "BYTES_PER_ELEMENT Float32Array = 4"
| "BYTES_PER_ELEMENT Float64Array = 8"

fun array_kind_of :: "typed_array \<Rightarrow> array_kind" where
  "array_kind_of (View k b off n) = k"

fun buffer :: "typed_array \<Rightarrow> bytes" where
  "buffer (View k b off n) = b"

fun byteOffset :: "typed_array \<Rightarrow> nat" where
  "byteOffset (View k b off n) = off"

text \<open>\<^verbatim>\<open>data.length\<close>, the number of elements.\<close>

fun array_length :: "typed_array \<Rightarrow> nat" where
  "array_length (View k b off n) = n"

definition byteLength :: "typed_array \<Rightarrow> nat" where
  "byteLength a = array_length a * BYTES_PER_ELEMENT (array_kind_of a)"

text \<open>The bytes of the buffer that the array covers, which hold its elements.\<close>

definition contents :: "typed_array \<Rightarrow> bytes" where
  "contents a = take (byteLength a) (drop (byteOffset a) (buffer a))"

text \<open>
  The array of constructor \<open>k\<close> over the buffer \<open>b\<close> from its first byte, with as many
  elements as the buffer holds, as \<^verbatim>\<open>new K(buffer)\<close>, \<^verbatim>\<open>new K(length)\<close> and \<^verbatim>\<open>new K(numbers)\<close>
  make it; and the arrays that span their buffer from end to end: offset 0 and as many bytes
  as the buffer has.
\<close>

definition TypedArray :: "array_kind \<Rightarrow> bytes \<Rightarrow> typed_array" where
  "TypedArray k b = View k b 0 (length b div BYTES_PER_ELEMENT k)"

definition owns_buffer :: "typed_array \<Rightarrow> bool" where
  "owns_buffer a = (byteOffset a = 0 \<and> byteLength a = length (buffer a))"

fun le_bytes :: "nat \<Rightarrow> nat \<Rightarrow> bytes" where
  "le_bytes 0 v = []"
| "le_bytes (Suc k) v = of_nat v # le_bytes k (v div 256)"

fun le_value :: "bytes \<Rightarrow> nat" where
  "le_value [] = 0"
| "le_value (b # bs) = unat b + 256 * le_value bs"

text \<open>The elements of a buffer, \<open>w\<close> bytes each.\<close>

function group :: "nat \<Rightarrow> 'a list \<Rightarrow> 'a list list" where
  "group w xs = (if w = 0 \<or> xs = [] then [] else take w xs # group w (drop w xs))"
  by pat_completeness auto
termination
  by (relation "measure (\<lambda>(w, xs). length xs)") auto

declare group.simps [simp del]

text \<open>
  \<^verbatim>\<open>new K(buffer)\<close> for a typed array constructor \<open>K\<close>: a \<^verbatim>\<open>RangeError\<close> unless the byte
  length is a multiple of the element size.
\<close>

definition new_view :: "array_kind \<Rightarrow> bytes \<Rightarrow> error + typed_array" where
  "new_view k b = (if length b mod BYTES_PER_ELEMENT k \<noteq> 0 then Inl RangeError
                   else Inr (TypedArray k b))"

text \<open>\<^verbatim>\<open>Array.from\<close> of a \<^verbatim>\<open>Uint16Array\<close> or \<^verbatim>\<open>Uint32Array\<close>: its elements as numbers.\<close>

definition elements :: "typed_array \<Rightarrow> nat list" where
  "elements a = map le_value (group (BYTES_PER_ELEMENT (array_kind_of a)) (contents a))"

text \<open>
  \<^verbatim>\<open>new Uint16Array(shape)\<close> and \<^verbatim>\<open>new Uint32Array(shape)\<close> from an array of numbers: each
  number is stored modulo the element width.
\<close>

definition from_numbers :: "array_kind \<Rightarrow> nat list \<Rightarrow> typed_array" where
  "from_numbers k ns = TypedArray k (concat (map (le_bytes (BYTES_PER_ELEMENT k)) ns))"

text \<open>
  \<^verbatim>\<open>getSystemEndianness\<close>: the first byte of \<^verbatim>\<open>new Uint16Array([0xff00])\<close> decides.
\<close>

definition getSystemEndianness :: string where
  "getSystemEndianness =
     (let arr0 = from_numbers Uint16Array [0xff00]; arr1 = buffer arr0
      in if arr1 ! 0 = 0 then ''<'' else ''>'')"

definition SYS_ENDIAN :: string where
  "SYS_ENDIAN = getSystemEndianness"

text \<open>
  \<^verbatim>\<open>DataView.getUint32(0, littleEndian)\<close> on a four-byte buffer and
  \<^verbatim>\<open>DataView.setUint32(0, v, littleEndian)\<close>, as the four bytes written.
\<close>

definition getUint32 :: "bytes \<Rightarrow> bool \<Rightarrow> nat" where
  "getUint32 b littleEndian = (if littleEndian then le_value b else le_value (rev b))"

definition setUint32 :: "nat \<Rightarrow> bool \<Rightarrow> bytes" where
  "setUint32 v littleEndian = (if littleEndian then le_bytes 4 v else rev (le_bytes 4 v))"

section \<open>castFloat16\<close>

text \<open>
  A JavaScript number, as far as \<^verbatim>\<open>castFloat16\<close> needs it. Every finite value the
  function computes is a binary fraction that a double holds exactly, so the arithmetic of
  the source is the arithmetic of the reals here.
\<close>

datatype jsnum = Finite real | NegZero | PosInfinity | NegInfinity | NaN

fun js_signed :: "bool \<Rightarrow> jsnum \<Rightarrow> jsnum" where
  "js_signed False x = x"
| "js_signed True (Finite r) = (if r = 0 then NegZero else Finite (- r))"
| "js_signed True NegZero = Finite 0"
| "js_signed True PosInfinity = NegInfinity"
| "js_signed True NegInfinity = PosInfinity"
| "js_signed True NaN = NaN"

definition castFloat16 :: "nat \<Rightarrow> jsnum" where
  "castFloat16 int16 =
     (let exponent = drop_bit 10 (and int16 0x7c00);
          fraction = and int16 0x03ff
      in js_signed (drop_bit 15 int16 \<noteq> 0)
           (if exponent \<noteq> 0 then
              (if exponent = 0x1f then (if fraction \<noteq> 0 then NaN else PosInfinity)
               else Finite (2 powi (int exponent - 15) * (1 + real fraction / 0x400)))
            else Finite (6103515625 / 10 ^ 14 * (real fraction / 0x400))))"

section \<open>Records\<close>

text \<open>
  \<^verbatim>\<open>NDArray\<close> and \<^verbatim>\<open>NDArrayAndExtra\<close>. The extra is \<^verbatim>\<open>object | null\<close>; \<^verbatim>\<open>encode\<close> tells an
  \<^verbatim>\<open>ArrayBuffer\<close> and a \<^verbatim>\<open>Uint8Array\<close> from any other object, whose type \<open>'j\<close> is left open:
  the objects that \<^verbatim>\<open>JSON.stringify\<close> turns into a text.
  An \<^verbatim>\<open>ArrayBuffer\<close> is its bytes; of a \<^verbatim>\<open>Uint8Array\<close> extra \<^verbatim>\<open>encode\<close> reads the elements and
  the \<^verbatim>\<open>byteLength\<close> only (lines 575, 582 and 663), never the underlying buffer, so it is the
  bytes it covers.
\<close>

record ndarray =
  shape :: "nat list"
  dType :: string
  data :: typed_array

datatype 'j extra = Null | ArrayBuffer bytes | Uint8ArrayObject bytes | Object 'j

type_synonym 'j NDArrayAndExtra = "ndarray \<times> 'j extra"

text \<open>
  What the codec takes from the JavaScript platform: \<^verbatim>\<open>JSON.stringify\<close> followed by
  \<^verbatim>\<open>TextEncoder.encode\<close>, \<^verbatim>\<open>TextDecoder.decode\<close> followed by \<^verbatim>\<open>JSON.parse\<close>, and the four bytes
  a \<^verbatim>\<open>Float32Array\<close> element holds for a number. \<^verbatim>\<open>JSON.parse\<close> throws a \<^verbatim>\<open>SyntaxError\<close>, or
  returns \<^verbatim>\<open>null\<close> (for the text \<^verbatim>\<open>null\<close>), or returns another value.
\<close>

datatype 'j parsed = ParseFailure | ParsedNull | Parsed 'j

record 'j platform =
  json_stringify :: "'j \<Rightarrow> bytes"
  json_parse :: "bytes \<Rightarrow> 'j parsed"
  float32_store :: "jsnum \<Rightarrow> bytes"

text \<open>
  \<^verbatim>\<open>parseFloat16ArrayBuffer(buffer)\<close> with \<^verbatim>\<open>littleEndian\<close> undefined, the only way the
  decoder calls it.
\<close>

definition parseFloat16ArrayBuffer :: "'j platform \<Rightarrow> bytes \<Rightarrow> error + typed_array" where
  "parseFloat16ArrayBuffer P b =
     (if length b mod 2 \<noteq> 0 then Inl GenericError
      else (let raw = elements (TypedArray Uint16Array b)
            in Inr (TypedArray Float32Array (concat (map (\<lambda>h. float32_store P (castFloat16 h)) raw)))))"

datatype array_type = Ctor array_kind | ParseFloat16

definition DTYPE_FLAGS_DECODING :: "nat \<Rightarrow> (array_type \<times> nat \<times> string) option" where
  "DTYPE_FLAGS_DECODING c =
     (if c = 1 then Some (Ctor Uint8Array, 1, ''uint8'')
      else if c = 2 then Some (Ctor Uint16Array, 2, ''uint16'')
      else if c = 3 then Some (Ctor Uint32Array, 4, ''uint32'')
      else if c = 5 then Some (Ctor Int8Array, 1, ''int8'')
      else if c = 6 then Some (Ctor Int16Array, 2, ''int16'')
      else if c = 7 then Some (Ctor Int32Array, 4, ''int32'')
      else if c = 9 then Some (ParseFloat16, 2, ''float32'')
      else if c = 10 then Some (Ctor Float32Array, 4, ''float32'')
      else if c = 11 then Some (Ctor Float64Array, 8, ''float64'')
      else None)"

definition DTYPE_FLAGS_ENCODING :: "string \<Rightarrow> nat option" where
  "DTYPE_FLAGS_ENCODING t =
     (if t = ''uint8'' then Some 1
      else if t = ''uint16'' then Some 2
      else if t = ''uint32'' then Some 3
      else if t = ''int8'' then Some 5
      else if t = ''int16'' then Some 6
      else if t = ''int32'' then Some 7
      else if t = ''float16'' then Some 9
      else if t = ''float32'' then Some 10
      else if t = ''float64'' then Some 11
      else None)"

section \<open>The record parser\<close>

text \<open>
  The parser threads two mutable arrays, the queue \<open>chunks\<close> and \<open>tempChunks\<close>. A step
  either throws, leaving both as they are at the \<^verbatim>\<open>throw\<close>, or yields a value and the two
  arrays.
\<close>

datatype 'a step = Throw error "bytes list" "bytes list" | Ok 'a "bytes list" "bytes list"

text \<open>\<^verbatim>\<open>chunk = splitChunks(chunks, n); tempChunks.push(chunk);\<close>\<close>

definition read_chunk :: "bytes list \<Rightarrow> bytes list \<Rightarrow> nat \<Rightarrow> bytes step" where
  "read_chunk chunks tempChunks n =
     (case splitChunks chunks n of
        (Inl e, chunks') \<Rightarrow> Throw e chunks' tempChunks
      | (Inr chunk, chunks') \<Rightarrow> Ok chunk chunks' (tempChunks @ [chunk]))"

text \<open>
  Lines 213-232 of index.ts. The two header bytes are elements of a \<^verbatim>\<open>Uint8Array\<close>, numbers
  from 0 to 255. The result is \<open>(littleEndian, sameEndian, ArrayType, dSize, typ, i1)\<close>;
  destructuring a missing entry of the table is a \<^verbatim>\<open>TypeError\<close>.
\<close>

definition header_dtype ::
  "string \<Rightarrow> bool \<Rightarrow> int \<Rightarrow> int \<Rightarrow> error + (bool \<times> bool \<times> array_type \<times> nat \<times> string \<times> int)"
where
  "header_dtype endian littleEndian dTypeCode i1 =
     (if dTypeCode = 0 \<or> dTypeCode \<ge> 12 then Inl GenericError
      else (case DTYPE_FLAGS_DECODING (nat dTypeCode) of
              None \<Rightarrow> Inl TypeError
            | Some (ArrayType, dSize, typ) \<Rightarrow>
                Inr (littleEndian, endian = SYS_ENDIAN, ArrayType, dSize, typ, i1)))"

definition parse_header ::
  "bytes \<Rightarrow> error + (bool \<times> bool \<times> array_type \<times> nat \<times> string \<times> int)"
where
  "parse_header chunk =
     (let i0 = int (unat (chunk ! 0)); i1 = int (unat (chunk ! 1)) in
      if i0 > 0 then header_dtype ''<'' True i0 i1
      else if i0 < 0 then header_dtype ''>'' False (- i0) i1
      else Inl GenericError)"

text \<open>
  Lines 236-267: the shape and the byte length \<open>e0\<close> of the data. When the record's byte
  order is not the host's, the source calls \<^verbatim>\<open>view.getUint16\<close> and \<^verbatim>\<open>view.getUint32\<close> detached
  from their \<^verbatim>\<open>DataView\<close>, which is a \<^verbatim>\<open>TypeError\<close> at the first element. The product of
  the dimensions is a natural number here; the JavaScript number is the same up to \<open>2^53\<close>,
  more bytes than a buffer can hold.
\<close>

definition read_shape ::
  "bool \<Rightarrow> nat \<Rightarrow> int \<Rightarrow> bytes list \<Rightarrow> bytes list \<Rightarrow> (nat list \<times> nat) step"
where
  "read_shape sameEndian dSize i1 chunks tempChunks =
     (if i1 > 0 then
        (case read_chunk chunks tempChunks (nat (i1 * 2)) of
           Throw e c t \<Rightarrow> Throw e c t
         | Ok chunk c t \<Rightarrow>
             if sameEndian then
               (case new_view Uint16Array chunk of
                  Inl e \<Rightarrow> Throw e c t
                | Inr shp \<Rightarrow>
                    Ok (elements shp, foldl (\<lambda>a b. a * b) 1 (elements shp) * dSize) c t)
             else Throw TypeError c t)
      else
        (let s = - i1 in
         case read_chunk chunks tempChunks (nat (s * 4)) of
           Throw e c t \<Rightarrow> Throw e c t
         | Ok chunk c t \<Rightarrow>
             if sameEndian then
               (case new_view Uint32Array chunk of
                  Inl e \<Rightarrow> Throw e c t
                | Inr shp \<Rightarrow>
                    Ok (elements shp, foldl (\<lambda>a b. a * b) 1 (elements shp) * dSize) c t)
             else if 0 < s then Throw TypeError c t
             else Ok ([], 1 * dSize) c t))"

text \<open>Lines 271-276: the data array, by constructor or by \<^verbatim>\<open>parseFloat16ArrayBuffer\<close>.\<close>

fun make_array :: "'j platform \<Rightarrow> array_type \<Rightarrow> bytes \<Rightarrow> error + typed_array" where
  "make_array P (Ctor k) b = new_view k b"
| "make_array P ParseFloat16 b = parseFloat16ArrayBuffer P b"

text \<open>
  Lines 312-322: the \<^verbatim>\<open>switch\<close> on the extra flag. The extra of flag 2 is whatever
  \<^verbatim>\<open>JSON.parse\<close> returns, \<^verbatim>\<open>null\<close> included.
\<close>

definition decode_extra :: "'j platform \<Rightarrow> nat \<Rightarrow> bytes \<Rightarrow> error + 'j extra" where
  "decode_extra P eFlag chunk =
     (if eFlag = 1 then Inr (ArrayBuffer chunk)
      else if eFlag = 2 then
        (case json_parse P chunk of
           ParseFailure \<Rightarrow> Inl SyntaxError
         | ParsedNull \<Rightarrow> Inr Null
         | Parsed j \<Rightarrow> Inr (Object j))
      else Inl GenericError)"

text \<open>\<^verbatim>\<open>chunks.length > 0 && chunks[0][0] === 0\<close>\<close>

fun starts_with_zero :: "bytes list \<Rightarrow> bool" where
  "starts_with_zero [] = False"
| "starts_with_zero ([] # cs) = False"
| "starts_with_zero ((b # bs) # cs) = (b = 0)"

text \<open>
  One turn of the \<^verbatim>\<open>while\<close> loop of \<^verbatim>\<open>parseFromUint8ArrayChunks\<close> (lines 211-339). It yields
  the record it pushes and whether the loop goes on (\<^verbatim>\<open>continue\<close>) or ends (\<^verbatim>\<open>break\<close>).
\<close>

definition parse_record ::
  "'j platform \<Rightarrow> bytes list \<Rightarrow> bytes list \<Rightarrow> ('j NDArrayAndExtra \<times> bool) step"
where
  "parse_record P chunks tempChunks =
     (case read_chunk chunks tempChunks 2 of
        Throw e c t \<Rightarrow> Throw e c t
      | Ok chunk c1 t1 \<Rightarrow>
     (case parse_header chunk of
        Inl e \<Rightarrow> Throw e c1 t1
      | Inr (littleEndian, sameEndian, ArrayType, dSize, typ, i1) \<Rightarrow>
     (case read_shape sameEndian dSize i1 c1 t1 of
        Throw e c t \<Rightarrow> Throw e c t
      | Ok (shp, e0) c2 t2 \<Rightarrow>
     (case read_chunk c2 t2 e0 of
        Throw e c t \<Rightarrow> Throw e c t
      | Ok chunk c3 t3 \<Rightarrow>
     (case make_array P ArrayType chunk of
        Inl e \<Rightarrow> Throw e c3 t3
      | Inr arr \<Rightarrow>
     (let nd = \<lparr>shape = shp, dType = typ, data = arr\<rparr> in
      if length c3 = 0 then Ok ((nd, Null), False) c3 t3
      else
     (case read_chunk c3 t3 1 of
        Throw e c t \<Rightarrow> Throw e c t
      | Ok chunk c4 t4 \<Rightarrow>
     (let eFlag = unat (chunk ! 0) in
      if eFlag = 0 then Ok ((nd, Null), True) c4 t4
      else
     (case read_chunk c4 t4 4 of
        Throw e c t \<Rightarrow> Throw e c t
      | Ok chunk c5 t5 \<Rightarrow>
     (let eLen = getUint32 chunk littleEndian in
      case read_chunk c5 t5 eLen of
        Throw e c t \<Rightarrow> Throw e c t
      | Ok chunk c6 t6 \<Rightarrow>
     (case decode_extra P eFlag chunk of
        Inl e \<Rightarrow> Throw e c6 t6
      | Inr ex \<Rightarrow>
          if starts_with_zero c6 then
            (case splitChunks c6 1 of
               (Inl e, c7) \<Rightarrow> Throw e c7 []
             | (Inr sep, c7) \<Rightarrow> Ok ((nd, ex), True) c7 [])
          else Ok ((nd, ex), False) c6 [])))))))))))"

text \<open>
  The \<^verbatim>\<open>while\<close> loop with its \<^verbatim>\<open>try\<close>/\<^verbatim>\<open>catch\<close>: an \<^verbatim>\<open>IncompleteChunksError\<close> puts
  \<open>tempChunks\<close> back in front of the queue and returns the records pushed so far; any
  other error leaves the function. The result comes with the queue as the call leaves it.
\<close>

function parse_loop ::
  "'j platform \<Rightarrow> bytes list \<Rightarrow> bytes list \<Rightarrow> 'j NDArrayAndExtra list \<Rightarrow>
     (error + 'j NDArrayAndExtra list) \<times> bytes list"
where
  "parse_loop P chunks tempChunks result =
     (if length chunks > 0 then
        (case parse_record P chunks tempChunks of
           Throw e c t \<Rightarrow>
             if e = IncompleteChunksError then (Inr result, t @ c) else (Inl e, c)
         | Ok (ne, continue) c t \<Rightarrow>
             if continue then parse_loop P c t (result @ [ne])
             else (Inr (result @ [ne]), c))
      else (Inr result, chunks))"
  by pat_completeness auto

definition parseFromUint8ArrayChunks ::
  "'j platform \<Rightarrow> bytes list \<Rightarrow> (error + 'j NDArrayAndExtra list) \<times> bytes list"
where
  "parseFromUint8ArrayChunks P chunks =
     (if length chunks = 0 then (Inr [], chunks) else parse_loop P chunks [] [])"

definition decode :: "'j platform \<Rightarrow> bytes \<Rightarrow> error + 'j NDArrayAndExtra list" where
  "decode P buf = fst (parseFromUint8ArrayChunks P [buf])"

section \<open>encode\<close>

text \<open>
  One entry of \<open>blobComponents\<close>:
  \<open>(i0, i1, shapeArray, data, extraEncoding, extraLength, extraArray)\<close>.
\<close>

type_synonym component =
  "int \<times> int \<times> typed_array \<times> typed_array \<times> nat \<times> nat \<times> bytes option"

text \<open>\<^verbatim>\<open>Math.max(...shape)\<close>; \<open>None\<close> is the \<^verbatim>\<open>-Infinity\<close> of the empty shape.\<close>

fun math_max :: "nat list \<Rightarrow> nat option" where
  "math_max [] = None"
| "math_max (x # xs) = Some (case math_max xs of None \<Rightarrow> x | Some m \<Rightarrow> max x m)"

text \<open>
  Lines 549-564: the width of the shape entries, \<open>(bigShape, shapeArray)\<close>, or the error of
  a dimension of \<open>2^32\<close> or more.
\<close>

definition shape_array :: "nat list \<Rightarrow> error + (bool \<times> typed_array)" where
  "shape_array shp =
     (case math_max shp of
        None \<Rightarrow> Inr (False, from_numbers Uint16Array shp)
      | Some maxDim \<Rightarrow>
          if maxDim < 65536 then Inr (False, from_numbers Uint16Array shp)
          else if maxDim < 4294967296 then Inr (True, from_numbers Uint32Array shp)
          else Inl GenericError)"

text \<open>
  The body of the first loop of \<^verbatim>\<open>encode\<close> (lines 534-603) for one item: what it adds to
  \<open>blobLength\<close> and the component it pushes.
\<close>

definition encode_item ::
  "'j platform \<Rightarrow> bool \<Rightarrow> 'j NDArrayAndExtra \<Rightarrow> error + (nat \<times> component)"
where
  "encode_item P littleEndian item =
     (case item of (arr, ex) \<Rightarrow>
      (case DTYPE_FLAGS_ENCODING (dType arr) of
         None \<Rightarrow> Inl GenericError
       | Some dTypeCode \<Rightarrow>
           if dTypeCode = 0 then Inl GenericError
           else
             (let i0 = (if littleEndian then int dTypeCode else - int dTypeCode);
                  i1 = int (length (shape arr))
              in if i1 > 128 then Inl GenericError
                 else
                   (case shape_array (shape arr) of
                      Inl e \<Rightarrow> Inl e
                    | Inr (bigShape, shapeArray) \<Rightarrow>
                        (let n = 2 + byteLength shapeArray + byteLength (data arr);
                             i1' = (if bigShape then - i1 else i1)
                         in case ex of
                              Null \<Rightarrow> Inr (n, (i0, i1', shapeArray, data arr, 0, 0, None))
                            | ArrayBuffer b \<Rightarrow>
                                Inr (n + 5 + length b,
                                     (i0, i1', shapeArray, data arr, 1, length b, Some b))
                            | Uint8ArrayObject b \<Rightarrow>
                                Inr (n + 5 + length b,
                                     (i0, i1', shapeArray, data arr, 1, length b, Some b))
                            | Object j \<Rightarrow>
                                (let extraArray = json_stringify P j
                                 in Inr (n + 5 + length extraArray,
                                         (i0, i1', shapeArray, data arr, 2,
                                          length extraArray, Some extraArray))))))))"

fun encode_items ::
  "'j platform \<Rightarrow> bool \<Rightarrow> 'j NDArrayAndExtra list \<Rightarrow> nat \<Rightarrow> component list \<Rightarrow>
     error + (nat \<times> component list)"
where
  "encode_items P littleEndian [] blobLength blobComponents = Inr (blobLength, blobComponents)"
| "encode_items P littleEndian (item # items) blobLength blobComponents =
     (case encode_item P littleEndian item of
        Inl e \<Rightarrow> Inl e
      | Inr (n, c) \<Rightarrow>
          encode_items P littleEndian items (blobLength + n) (blobComponents @ [c]))"

text \<open>
  Writing into the \<^verbatim>\<open>Uint8Array\<close> \<open>blob\<close>. An element store \<^verbatim>\<open>blob[k] = v\<close> keeps \<open>v\<close>
  modulo 256 and does nothing out of range; \<^verbatim>\<open>blob.set(src, offset)\<close> is a \<^verbatim>\<open>RangeError\<close>
  when the source does not fit; a read out of range gives \<^verbatim>\<open>undefined\<close>, stored as 0.
\<close>

definition store :: "bytes \<Rightarrow> nat \<Rightarrow> int \<Rightarrow> bytes" where
  "store blob k v = blob[k := of_int v]"

definition blob_set :: "bytes \<Rightarrow> bytes \<Rightarrow> nat \<Rightarrow> error + bytes" where
  "blob_set blob src offset =
     (if offset + length src > length blob then Inl RangeError
      else Inr (take offset blob @ src @ drop (offset + length src) blob))"

definition read_or_zero :: "bytes \<Rightarrow> nat \<Rightarrow> byte" where
  "read_or_zero src k = (if k < length src then src ! k else 0)"

text \<open>
  Lines 631-636 and 641-646, the loops taken when the requested byte order is not the
  host's. The source indexes the array it copies from with the offset into \<open>blob\<close>.
\<close>

definition swap_element :: "bytes \<Rightarrow> nat \<Rightarrow> bytes \<Rightarrow> nat \<Rightarrow> bytes" where
  "swap_element src step blob offset =
     fold (\<lambda>j b. b[offset + j := read_or_zero src (offset + step - j - 1)]) [0..<step] blob"

fun swap_loop :: "bytes \<Rightarrow> nat \<Rightarrow> nat \<Rightarrow> bytes \<times> nat \<Rightarrow> bytes \<times> nat" where
  "swap_loop src step 0 (blob, offset) = (blob, offset)"
| "swap_loop src step (Suc n) (blob, offset) =
     swap_loop src step n (swap_element src step blob offset, offset + step)"

text \<open>
  The body of the second loop (lines 609-665) for the component of index \<open>i\<close>, on the
  state \<open>(blob, offset)\<close>, in its four parts: the separator (lines 612-615), the header
  (lines 617-619), the shape and the data (lines 621-647), the extra (lines 649-665).
  Lines 622 and 625 copy \<^verbatim>\<open>new Uint8Array(shapeArray.buffer)\<close> and
  \<^verbatim>\<open>new Uint8Array(data.buffer)\<close>, every byte of the underlying buffers, while the offset
  advances by \<^verbatim>\<open>byteLength\<close>, the size that the first loop has counted (lines 565-566); the
  loops of the other branch read \<^verbatim>\<open>data.buffer\<close> likewise, from its first byte.
\<close>

definition write_separator :: "nat \<Rightarrow> bytes \<times> nat \<Rightarrow> bytes \<times> nat" where
  "write_separator i st =
     (case st of (blob, offset) \<Rightarrow>
        if i > 0 then (store blob offset 0, offset + 1) else (blob, offset))"

definition write_header :: "int \<Rightarrow> int \<Rightarrow> bytes \<times> nat \<Rightarrow> bytes \<times> nat" where
  "write_header i0 i1 st =
     (case st of (blob, offset) \<Rightarrow>
        (store (store blob offset i0) (offset + 1) i1, offset + 2))"

definition write_arrays ::
  "bool \<Rightarrow> typed_array \<Rightarrow> typed_array \<Rightarrow> bytes \<times> nat \<Rightarrow> error + (bytes \<times> nat)"
where
  "write_arrays sameEndian shapeArray dat st =
     (case st of (blob, offset) \<Rightarrow>
        if sameEndian then
          (case blob_set blob (buffer shapeArray) offset of
             Inl e \<Rightarrow> Inl e
           | Inr blob1 \<Rightarrow>
               (let offset1 = offset + byteLength shapeArray
                in case blob_set blob1 (buffer dat) offset1 of
                     Inl e \<Rightarrow> Inl e
                   | Inr blob2 \<Rightarrow> Inr (blob2, offset1 + byteLength dat)))
        else
          Inr (swap_loop (buffer dat) (BYTES_PER_ELEMENT (array_kind_of dat))
                 (array_length dat)
                 (swap_loop (buffer shapeArray)
                    (BYTES_PER_ELEMENT (array_kind_of shapeArray))
                    (array_length shapeArray) (blob, offset))))"

definition write_extra ::
  "bool \<Rightarrow> nat \<Rightarrow> nat \<Rightarrow> bytes option \<Rightarrow> bytes \<times> nat \<Rightarrow> error + (bytes \<times> nat)"
where
  "write_extra littleEndian extraEncoding extraLength extraArray st =
     (case st of (blob, offset) \<Rightarrow>
        if extraEncoding > 0 then
          (case extraArray of
             None \<Rightarrow> Inl GenericError
           | Some ea \<Rightarrow>
               (let blob1 = store blob offset (int extraEncoding);
                    offset1 = offset + 1
                in if offset1 + 4 > length blob1 then Inl RangeError
                   else
                     (case blob_set blob1 (setUint32 extraLength littleEndian) offset1 of
                        Inl e \<Rightarrow> Inl e
                      | Inr blob2 \<Rightarrow>
                          (case blob_set blob2 ea (offset1 + 4) of
                             Inl e \<Rightarrow> Inl e
                           | Inr blob3 \<Rightarrow> Inr (blob3, offset1 + 4 + length ea)))))
        else Inr (blob, offset))"

definition write_component ::
  "bool \<Rightarrow> bool \<Rightarrow> nat \<Rightarrow> component \<Rightarrow> bytes \<times> nat \<Rightarrow> error + (bytes \<times> nat)"
where
  "write_component sameEndian littleEndian i c st =
     (case c of (i0, i1, shapeArray, dat, extraEncoding, extraLength, extraArray) \<Rightarrow>
        (case write_arrays sameEndian shapeArray dat
                (write_header i0 i1 (write_separator i st)) of
           Inl e \<Rightarrow> Inl e
         | Inr st1 \<Rightarrow> write_extra littleEndian extraEncoding extraLength extraArray st1))"

fun write_components ::
  "bool \<Rightarrow> bool \<Rightarrow> nat \<Rightarrow> component list \<Rightarrow> bytes \<times> nat \<Rightarrow> error + (bytes \<times> nat)"
where
  "write_components sameEndian littleEndian i [] st = Inr st"
| "write_components sameEndian littleEndian i (c # cs) st =
     (case write_component sameEndian littleEndian i c st of
        Inl e \<Rightarrow> Inl e
      | Inr st' \<Rightarrow> write_components sameEndian littleEndian (i + 1) cs st')"

text \<open>
  \<^verbatim>\<open>encode(items, littleEndian)\<close>; \<open>None\<close> is the omitted \<^verbatim>\<open>littleEndian\<close>.
  \<^verbatim>\<open>new Uint8Array(n)\<close> is a \<^verbatim>\<open>RangeError\<close> for a negative \<open>n\<close>.
\<close>

definition encode :: "'j platform \<Rightarrow> 'j NDArrayAndExtra list \<Rightarrow> bool option \<Rightarrow> error + bytes" where
  "encode P items littleEndianArg =
     (let (sameEndian, littleEndian) =
            (case littleEndianArg of
               None \<Rightarrow> (True, SYS_ENDIAN = ''<'')
             | Some l \<Rightarrow> (l = (SYS_ENDIAN = ''<''), l))
      in case encode_items P littleEndian items 0 [] of
           Inl e \<Rightarrow> Inl e
         | Inr (blobLength, blobComponents) \<Rightarrow>
             (let numBlobComponents = length blobComponents;
                  blobSize = int blobLength + int numBlobComponents - 1
              in if blobSize < 0 then Inl RangeError
                 else
                   (case write_components sameEndian littleEndian 0 blobComponents
                           (replicate (nat blobSize) 0, 0) of
                      Inl e \<Rightarrow> Inl e
                    | Inr (blob, offset) \<Rightarrow> Inr blob)))"

section \<open>The streaming driver\<close>

text \<open>
  The state that \<^verbatim>\<open>streamFromReadableStream\<close> closes over: the queue \<open>chunks\<close>, the
  undelivered records \<open>nes\<close>, the flag \<open>streamDone\<close>, and the chunks the source has still to
  deliver (\<^verbatim>\<open>streamReader.read()\<close> hands over the first of them, or reports \<^verbatim>\<open>done\<close> when none
  is left).
\<close>

record 'j stream_state =
  st_chunks :: "bytes list"
  st_nes :: "'j NDArrayAndExtra list"
  st_done :: bool
  st_source :: "bytes list"

text \<open>
  What one call of \<^verbatim>\<open>pull\<close> does to the controller, in order: \<^verbatim>\<open>controller.enqueue\<close>,
  \<^verbatim>\<open>controller.close\<close>, or an exception leaving \<^verbatim>\<open>yieldArrays\<close>, which errors the stream.
\<close>

datatype 'j event = Enqueue "'j NDArrayAndExtra" | Close | Fail error

text \<open>
  Lines 392-408, \<^verbatim>\<open>while (nes.length === 0)\<close>: read a chunk, push it on the queue, parse.
  The result is the error thrown, if any, and \<open>(chunks, nes, streamDone, source)\<close>.
\<close>

fun read_loop ::
  "'j platform \<Rightarrow> bytes list \<Rightarrow> 'j NDArrayAndExtra list \<Rightarrow> bytes list \<Rightarrow>
     error option \<times> bytes list \<times> 'j NDArrayAndExtra list \<times> bool \<times> bytes list"
where
  "read_loop P chunks nes [] =
     (if length nes = 0 then (None, chunks, nes, True, []) else (None, chunks, nes, False, []))"
| "read_loop P chunks nes (part # src) =
     (if length nes = 0 then
        (case parseFromUint8ArrayChunks P (chunks @ [part]) of
           (Inl e, chunks') \<Rightarrow> (Some e, chunks', nes, False, src)
         | (Inr rs, chunks') \<Rightarrow> read_loop P chunks' (nes @ rs) src)
      else (None, chunks, nes, False, part # src))"

text \<open>\<^verbatim>\<open>yieldArrays\<close> (lines 369-432), the body of \<^verbatim>\<open>pull\<close>.\<close>

definition pull :: "'j platform \<Rightarrow> 'j stream_state \<Rightarrow> 'j event list \<times> 'j stream_state" where
  "pull P s =
     (if st_done s \<and> length (st_nes s) = 0 then ([Close], s)
      else if length (st_nes s) > 0 then (map Enqueue (st_nes s), s\<lparr>st_nes := []\<rparr>)
      else
        (case (if length (st_chunks s) > 0 then parseFromUint8ArrayChunks P (st_chunks s)
               else (Inr [], st_chunks s)) of
           (Inl e, chunks1) \<Rightarrow> ([Fail e], s\<lparr>st_chunks := chunks1\<rparr>)
         | (Inr rs1, chunks1) \<Rightarrow>
             if length (st_nes s @ rs1) > 0 then
               (map Enqueue (st_nes s @ rs1), s\<lparr>st_chunks := chunks1, st_nes := []\<rparr>)
             else if \<not> st_done s then
               (case read_loop P chunks1 (st_nes s @ rs1) (st_source s) of
                  (Some e, chunks2, nes2, done2, src2) \<Rightarrow>
                    ([Fail e],
                     \<lparr>st_chunks = chunks2, st_nes = nes2, st_done = done2, st_source = src2\<rparr>)
                | (None, chunks2, nes2, done2, src2) \<Rightarrow>
                    if length nes2 > 0 then
                      (map Enqueue nes2,
                       \<lparr>st_chunks = chunks2, st_nes = [], st_done = done2, st_source = src2\<rparr>)
                    else
                      ([], \<lparr>st_chunks = chunks2, st_nes = nes2, st_done = done2,
                            st_source = src2\<rparr>))
             else
               (case parseFromUint8ArrayChunks P chunks1 of
                  (Inl e, chunks2) \<Rightarrow> ([Fail e], s\<lparr>st_chunks := chunks2\<rparr>)
                | (Inr rs2, chunks2) \<Rightarrow>
                    if length (st_nes s @ rs1 @ rs2) > 0 then
                      (map Enqueue (st_nes s @ rs1 @ rs2),
                       s\<lparr>st_chunks := chunks2, st_nes := []\<rparr>)
                    else
                      (Close # (if length chunks2 > 0 then [Fail GenericError] else []),
                       s\<lparr>st_chunks := chunks2\<rparr>))))"

text \<open>
  \<^verbatim>\<open>streamFromReadableStream(stream)\<close>: the state a new stream starts in, for a source that
  delivers the given chunks and then ends.
\<close>

definition streamFromReadableStream :: "bytes list \<Rightarrow> 'j stream_state" where
  "streamFromReadableStream src =
     \<lparr>st_chunks = [], st_nes = [], st_done = False, st_source = src\<rparr>"

text \<open>
  A consumer that keeps reading makes the platform call \<^verbatim>\<open>pull\<close> again and again, one call
  at a time, until the stream is closed or errored. \<open>pulls P n s\<close> is the sequence of events of
  the first \<open>n\<close> such calls; it stops at the first \<open>Close\<close> or \<open>Fail\<close>.
\<close>

fun ended :: "'j event list \<Rightarrow> bool" where
  "ended [] = False"
| "ended (Enqueue r # evs) = ended evs"
| "ended (Close # evs) = True"
| "ended (Fail e # evs) = True"

fun pulls :: "'j platform \<Rightarrow> nat \<Rightarrow> 'j stream_state \<Rightarrow> 'j event list" where
  "pulls P 0 s = []"
| "pulls P (Suc n) s =
     (case pull P s of (evs, s') \<Rightarrow> if ended evs then evs else evs @ pulls P n s')"

section \<open>A platform to run the codec on\<close>



section \<open>The byte layout, as the specification words it\<close>

text \<open>
  Section 4.1 of the specification: a record is its two header bytes, its shape entries,
  its data bytes and, if it has an extra, the flag byte, the four bytes of the length and the
  payload; records are laid end to end with one zero byte before each but the first. These
  definitions are not taken from the code: they state, for a component that \<open>encode\<close> has
  collected, what the second loop of \<open>encode\<close> is to write.
\<close>

fun component_bytes :: "bool \<Rightarrow> component \<Rightarrow> bytes" where
  "component_bytes littleEndian (i0, i1, shapeArray, dat, extraEncoding, extraLength, extraArray) =
     [of_int i0, of_int i1] @ contents shapeArray @ contents dat @
     (case extraArray of
        None \<Rightarrow> []
      | Some ea \<Rightarrow> of_nat extraEncoding # setUint32 extraLength littleEndian @ ea)"




text \<open>
  Writing the bytes \<open>xs\<close> at the offset of the state \<open>(blob, offset)\<close>, and the room it needs.
\<close>

definition put :: "bytes \<Rightarrow> bytes \<times> nat \<Rightarrow> bytes \<times> nat" where
  "put xs st =
     (case st of (blob, offset) \<Rightarrow>
        (take offset blob @ xs @ drop (offset + length xs) blob, offset + length xs))"



text \<open>
  The same layout for records: little-endian, shape entries of 16 bits. \<open>dtype_code\<close> and
  \<open>dtype_size\<close> are the code and the byte width that Section 4.1 lists for a dtype, read
  off the two tables of the source.
\<close>

definition dtype_code :: "string \<Rightarrow> nat" where
  "dtype_code t = (case DTYPE_FLAGS_ENCODING t of None \<Rightarrow> 0 | Some c \<Rightarrow> c)"

definition dtype_size :: "string \<Rightarrow> nat" where
  "dtype_size t =
     (case DTYPE_FLAGS_DECODING (dtype_code t) of
        None \<Rightarrow> 0
      | Some (ArrayType, dSize, typ) \<Rightarrow> dSize)"




text \<open>The queue that holds the bytes \<open>bs\<close> still to read of a buffer.\<close>

definition queue_of :: "bytes \<Rightarrow> bytes list" where
  "queue_of bs = (if bs = [] then [] else [bs])"

section \<open>Valid records\<close>


text \<open>
  A valid record, as the specification has it: a supported dtype, at most 128 dimensions,
  every dimension below \<open>bound\<close> (the specification's \<open>2^32\<close>), and data of
  \<open>product(shape)\<close> times the byte width of the dtype.
\<close>

definition valid_record :: "nat \<Rightarrow> 'j NDArrayAndExtra \<Rightarrow> bool" where
  "valid_record bound item =
     (case item of (arr, ex) \<Rightarrow>
        DTYPE_FLAGS_ENCODING (dType arr) \<noteq> None \<and>
        length (shape arr) \<le> 128 \<and>
        list_all (\<lambda>d. d < bound) (shape arr) \<and>
        byteLength (data arr) = prod_list (shape arr) * dtype_size (dType arr))"






section \<open>Records of the examples\<close>

text \<open>A zero-dimensional \<^verbatim>\<open>uint8\<close> array holding \<open>v\<close>, with no extra.\<close>

definition scalar_uint8 :: "byte \<Rightarrow> 'j NDArrayAndExtra" where
  "scalar_uint8 v =
     (\<lparr>shape = [], dType = ''uint8'', data = TypedArray Uint8Array [v]\<rparr>, Null)"

text \<open>
  The array of the literal scenario: 2 by 3, \<^verbatim>\<open>float32\<close>, holding 1.1 to 6.6. Its buffer
  on the host is the constant \<^verbatim>\<open>_hex\<close> of the repository's test file; \<open>min_max_json\<close> is
  the 21 bytes of the text \<^verbatim>\<open>{"min":1.1,"max":6.6}\<close>.
\<close>

definition float32_1_1_to_6_6 :: bytes where
  "float32_1_1_to_6_6 =
     [0xcd, 0xcc, 0x8c, 0x3f, 0xcd, 0xcc, 0x0c, 0x40, 0x33, 0x33, 0x53, 0x40,
      0xcd, 0xcc, 0x8c, 0x40, 0x00, 0x00, 0xb0, 0x40, 0x33, 0x33, 0xd3, 0x40]"

definition mat :: ndarray where
  "mat = \<lparr>shape = [2, 3], dType = ''float32'',
           data = TypedArray Float32Array float32_1_1_to_6_6\<rparr>"






section \<open>Arrays that span their buffer\<close>


lemma array_kind_of_TypedArray [simp]: "array_kind_of (TypedArray k b) = k"
  by (simp add: TypedArray_def)

lemma buffer_TypedArray [simp]: "buffer (TypedArray k b) = b"
  by (simp add: TypedArray_def)

lemma byteOffset_TypedArray [simp]: "byteOffset (TypedArray k b) = 0"
  by (simp add: TypedArray_def)

lemma array_length_TypedArray [simp]:
  "array_length (TypedArray k b) = length b div BYTES_PER_ELEMENT k"
  by (simp add: TypedArray_def)

lemma TypedArray_eq [simp]: "TypedArray k b = TypedArray k' b' \<longleftrightarrow> k = k' \<and> b = b'"
  by (auto simp: TypedArray_def)




lemma byteLength_owned: "owns_buffer a \<Longrightarrow> byteLength a = length (buffer a)"
  by (simp add: owns_buffer_def)

lemma contents_owned: "owns_buffer a \<Longrightarrow> contents a = buffer a"
  by (simp add: owns_buffer_def contents_def)


lemma length_le_bytes [simp]: "length (le_bytes k v) = k"
  by (induction k arbitrary: v) simp_all



section \<open>Properties of splitChunks\<close>

lemma concat_split_at:
  assumes "i < length chunks"
  shows "concat chunks = concat (take i chunks) @ chunks ! i @ concat (drop (Suc i) chunks)"
proof -
  have "chunks = take i chunks @ chunks ! i # drop (Suc i) chunks"
    using assms by (simp add: id_take_nth_drop)
  then have "concat chunks = concat (take i chunks @ chunks ! i # drop (Suc i) chunks)"
    by simp
  then show ?thesis by simp
qed

lemma split_loop_inv:
  assumes "i \<le> length chunks" "p = take i chunks" "a = length (concat p)" "a \<le> L" "s = i"
    and "split_loop chunks L i p a s = (c', p', a', s')"
  shows "a' \<le> L \<and> a' = length (concat p') \<and>
         (a' < L \<longrightarrow> c' = chunks \<and> p' = chunks) \<and>
         (a' = L \<longrightarrow> concat p' = take L (concat chunks) \<and> concat (drop s' c') = drop L (concat chunks))"
  using assms
proof (induction chunks L i p a s rule: split_loop.induct)
  case (1 chunks len i p a s)
  show ?case
  proof (cases "i < length chunks")
    case False
    then have il: "i = length chunks" using "1.prems"(1) by simp
    have "split_loop chunks len i p a s = (chunks, p, a, s)"
      using False by (simp add: split_loop.simps[of chunks len i])
    then have r: "c' = chunks" "p' = p" "a' = a" "s' = s" using "1.prems"(6) by simp_all
    have pc: "p = chunks" using "1.prems"(2) il by simp
    show ?thesis using r pc "1.prems"(3,4,5) il by simp
  next
    case True
    note i = True
    define A where "A = concat (take i chunks)"
    define B where "B = chunks ! i"
    define C where "C = concat (drop (Suc i) chunks)"
    have cc: "concat chunks = A @ B @ C"
      unfolding A_def B_def C_def by (rule concat_split_at[OF i])
    have pA: "concat p = A" using "1.prems"(2) by (simp add: A_def)
    have lA: "length A = a" using "1.prems"(3) pA by simp
    have di: "concat (drop i chunks) = B @ C"
      unfolding B_def C_def using i by (simp add: Cons_nth_drop_Suc[symmetric])
    show ?thesis
    proof (cases "a + length B \<le> len")
      case True
      have eq: "split_loop chunks len (i+1) (p @ [chunks ! i]) (a + length (chunks ! i)) (i+1) = (c', p', a', s')"
        using "1.prems"(6) i True by (simp add: split_loop.simps[of chunks len i] Let_def B_def)
      have a1: "i + 1 \<le> length chunks" using i by simp
      have a2: "p @ [chunks ! i] = take (i + 1) chunks"
        using i "1.prems"(2) by (simp add: take_Suc_conv_app_nth)
      have a3: "a + length (chunks ! i) = length (concat (p @ [chunks ! i]))"
        using "1.prems"(3) by simp
      show ?thesis
        by (rule "1.IH"[OF i refl refl True[unfolded B_def] a1 a2 a3 True[unfolded B_def] refl eq])
    next
      case False
      note over = False
      show ?thesis
      proof (cases "len - a > 0")
        case True
        define k where "k = len - a"
        have k: "k < length B" "len = a + k" "0 < k"
          using over True "1.prems"(4) by (simp_all add: k_def)
        have "split_loop chunks len i p a s =
                (chunks[i := drop k B], p @ [take k B], len, s)"
          using i over True by (simp add: split_loop.simps[of chunks len i] Let_def k_def B_def)
        then have r: "c' = chunks[i := drop k B]" "p' = p @ [take k B]"
            "a' = len" "s' = s"
          using "1.prems"(6) by simp_all
        have g1: "len = length (concat p')"
          unfolding r(2) k(2) using pA lA k(1) by simp
        have g2: "concat p' = take len (concat chunks)"
          unfolding r(2) k(2) cc using pA lA k(1) by simp
        have "drop i (chunks[i := drop k B]) = drop k B # drop (Suc i) chunks"
        proof -
          have "i < length (chunks[i := drop k B])" using i by simp
          from Cons_nth_drop_Suc[OF this, symmetric] show ?thesis
            using i by simp
        qed
        then have "concat (drop i (chunks[i := drop k B])) = drop k B @ C"
          by (simp add: C_def)
        moreover have "drop len (concat chunks) = drop k B @ C"
          unfolding k(2) cc using lA k(1) by simp
        ultimately have g3: "concat (drop s' c') = drop len (concat chunks)"
          unfolding r(1,4) "1.prems"(5) by simp
        show ?thesis unfolding r(3) using g1 g2 g3 by blast
      next
        case False
        then have al: "len = a" using "1.prems"(4) by simp
        have "split_loop chunks len i p a s = (chunks, p, a, s)"
          using i over False by (simp add: split_loop.simps[of chunks len i] Let_def B_def)
        then have r: "c' = chunks" "p' = p" "a' = a" "s' = s" using "1.prems"(6) by simp_all
        have g2: "concat p = take len (concat chunks)"
          unfolding al cc using pA lA by simp
        have g3: "concat (drop i chunks) = drop len (concat chunks)"
          unfolding al cc di using lA by simp
        have g1: "a = length (concat p)" using "1.prems"(3) .
        show ?thesis unfolding r "1.prems"(5) using al g1 g2 g3 by blast
      qed
    qed
  qed
qed

lemma split_loop_start:
  assumes "split_loop chunks L 0 [] 0 0 = (c', p', a', s')"
  shows "a' \<le> L" "a' = length (concat p')"
    "a' < L \<Longrightarrow> c' = chunks \<and> p' = chunks"
    "a' = L \<Longrightarrow> concat p' = take L (concat chunks) \<and> concat (drop s' c') = drop L (concat chunks)"
proof -
  have "a' \<le> L \<and> a' = length (concat p') \<and>
         (a' < L \<longrightarrow> c' = chunks \<and> p' = chunks) \<and>
         (a' = L \<longrightarrow> concat p' = take L (concat chunks) \<and> concat (drop s' c') = drop L (concat chunks))"
    by (rule split_loop_inv[OF _ _ _ _ _ assms]) simp_all
  then show "a' \<le> L" "a' = length (concat p')"
    "a' < L \<Longrightarrow> c' = chunks \<and> p' = chunks"
    "a' = L \<Longrightarrow> concat p' = take L (concat chunks) \<and> concat (drop s' c') = drop L (concat chunks)"
    by blast+
qed

lemma splitChunks_short:
  assumes "length (concat chunks) < L"
  shows "splitChunks chunks L = (Inl IncompleteChunksError, chunks)"
proof -
  obtain c' p' a' s' where sl: "split_loop chunks L 0 [] 0 0 = (c', p', a', s')"
    using prod_cases4 by blast
  note inv = split_loop_start[OF sl]
  have "a' \<noteq> L"
  proof
    assume e: "a' = L"
    have "length (concat p') = length (take L (concat chunks))"
      using inv(4)[OF e] by (rule_tac arg_cong[where f = length]) blast
    then have "a' = min (length (concat chunks)) L" unfolding inv(2)[symmetric] by simp
    then show False using assms e by simp
  qed
  then have lt: "a' < L" using inv(1) by simp
  have "c' = chunks" using inv(3)[OF lt] by blast
  then show ?thesis using lt unfolding splitChunks_def sl by simp
qed

lemma splitChunks_enough:
  assumes "L \<le> length (concat chunks)"
  shows "\<exists>q. splitChunks chunks L = (Inr (take L (concat chunks)), q) \<and>
             concat q = drop L (concat chunks)"
proof -
  obtain c' p' a' s' where sl: "split_loop chunks L 0 [] 0 0 = (c', p', a', s')"
    using prod_cases4 by blast
  note inv = split_loop_start[OF sl]
  have "\<not> a' < L"
  proof
    assume lt: "a' < L"
    have "p' = chunks" using inv(3)[OF lt] by blast
    then have "length (concat chunks) = a'" using inv(2) by blast
    then show False using assms lt by simp
  qed
  then have al: "a' = L" using inv(1) by simp
  have r: "concat p' = take L (concat chunks)" "concat (drop s' c') = drop L (concat chunks)"
    using inv(4)[OF al] by blast+
  have "splitChunks chunks L = (Inr (concat p'), drop s' c')"
    unfolding splitChunks_def sl using al by simp
  then show ?thesis unfolding r(1) using r(2) by blast
qed

lemma splitChunks_Inr:
  assumes "splitChunks c n = (Inr x, c')"
  shows "x = take n (concat c)" "concat c' = drop n (concat c)" "n \<le> length (concat c)"
proof -
  have le: "n \<le> length (concat c)"
  proof (rule ccontr)
    assume "\<not> n \<le> length (concat c)"
    then have "splitChunks c n = (Inl IncompleteChunksError, c)"
      by (simp add: splitChunks_short)
    then show False using assms by simp
  qed
  from splitChunks_enough[OF le] obtain q where
    q: "splitChunks c n = (Inr (take n (concat c)), q)" "concat q = drop n (concat c)" by blast
  show "n \<le> length (concat c)" by (rule le)
  show "x = take n (concat c)" using q(1) assms by simp
  show "concat c' = drop n (concat c)" using q assms by simp
qed

lemma splitChunks_Inl:
  assumes "splitChunks c n = (Inl e, c')"
  shows "e = IncompleteChunksError" "c' = c" "length (concat c) < n"
proof -
  have lt: "length (concat c) < n"
  proof (rule ccontr)
    assume "\<not> length (concat c) < n"
    then have "n \<le> length (concat c)" by simp
    from splitChunks_enough[OF this] show False using assms by auto
  qed
  show "length (concat c) < n" by (rule lt)
  show "e = IncompleteChunksError" "c' = c"
    using splitChunks_short[OF lt] assms by simp_all
qed

lemma splitChunks_bytes:
  assumes "splitChunks c n = (Inr x, c')"
  shows "length (concat c') + n = length (concat c)"
  using splitChunks_Inr[OF assms] by simp

lemma read_chunk_Ok:
  assumes "read_chunk c t n = Ok x c' t'"
  shows "length (concat c') + n = length (concat c)"
  using assms unfolding read_chunk_def
  by (auto split: prod.splits sum.splits dest: splitChunks_bytes)

lemma read_shape_Ok:
  assumes "read_shape se ds i1 c t = Ok x c' t'"
  shows "length (concat c') \<le> length (concat c)"
  using assms unfolding read_shape_def
  by (auto simp: Let_def split: if_splits step.splits sum.splits dest!: read_chunk_Ok)

lemma parse_record_Ok:
  assumes "parse_record P c t = Ok x c' t'"
  shows "length (concat c') + 2 \<le> length (concat c)"
  using assms unfolding parse_record_def
  by (auto simp: Let_def split: if_splits step.splits sum.splits prod.splits
      dest!: read_chunk_Ok read_shape_Ok splitChunks_bytes)

text \<open>Every turn of the loop of the parser consumes the two header bytes at least.\<close>

termination parse_loop
  by (relation "measure (\<lambda>(P, c, t, r). length (concat c))") (auto dest!: parse_record_Ok)

declare parse_loop.simps [simp del]

text \<open>
  Claim C3. For every chunk queue and every requested length \<open>L\<close>: when fewer than \<open>L\<close>
  bytes are buffered, \<open>splitChunks\<close> fails with the insufficient-data condition and the
  queue it leaves is the queue it was given, so that a repeated call on that queue fails in
  the same way; when at least \<open>L\<close> bytes are buffered, it returns the first \<open>L\<close> bytes of
  the queue's concatenation, in order, and the queue it leaves holds the remaining bytes.
\<close>

theorem splitChunks_contract:
  "(length (concat chunks) < L \<longrightarrow>
      splitChunks chunks L = (Inl IncompleteChunksError, chunks) \<and>
      splitChunks (snd (splitChunks chunks L)) L = splitChunks chunks L) \<and>
   (L \<le> length (concat chunks) \<longrightarrow>
      (\<exists>q. splitChunks chunks L = (Inr (take L (concat chunks)), q) \<and>
           concat q = drop L (concat chunks)))"
proof (intro conjI impI)
  assume short: "length (concat chunks) < L"
  have s: "splitChunks chunks L = (Inl IncompleteChunksError, chunks)"
    by (rule splitChunks_short[OF short])
  show "splitChunks chunks L = (Inl IncompleteChunksError, chunks)" by (rule s)
  show "splitChunks (snd (splitChunks chunks L)) L = splitChunks chunks L"
    unfolding s snd_conv s ..
next
  assume "L \<le> length (concat chunks)"
  then show "\<exists>q. splitChunks chunks L = (Inr (take L (concat chunks)), q) \<and>
                concat q = drop L (concat chunks)"
    by (rule splitChunks_enough)
qed

theorem splitChunks_contract_witness:
  "length (concat [[1, 2, 3], [4, 5 :: byte]]) < 6 \<and>
   splitChunks [[1, 2, 3], [4, 5]] 6 = (Inl IncompleteChunksError, [[1, 2, 3], [4, 5]]) \<and>
   4 \<le> length (concat [[1, 2, 3], [4, 5 :: byte]]) \<and>
   (\<exists>q. splitChunks [[1, 2, 3], [4, 5]] 4 = (Inr [1, 2, 3, 4], q) \<and> concat q = [5])"
  using splitChunks_contract[of "[[1, 2, 3], [4, 5]]" 6]
    splitChunks_contract[of "[[1, 2, 3], [4, 5]]" 4]
  by simp

section \<open>Evaluation on numerals\<close>

lemma le_bytes_numeral [simp]:
  "le_bytes (numeral k) v = of_nat v # le_bytes (pred_numeral k) (v div 256)"
proof -
  have "numeral k = Suc (pred_numeral k)" by (rule numeral_eq_Suc)
  then show ?thesis by (metis le_bytes.simps(2))
qed

lemma SYS_ENDIAN_little [simp]: "SYS_ENDIAN = ''<''"
  by (simp add: SYS_ENDIAN_def getSystemEndianness_def from_numbers_def)

lemmas decode_eval =
  decode_def parseFromUint8ArrayChunks_def parse_loop.simps parse_record_def read_chunk_def
  splitChunks_def split_loop.simps Let_def parse_header_def header_dtype_def
  DTYPE_FLAGS_DECODING_def read_shape_def
  from_numbers_def new_view_def elements_def contents_def byteLength_def group.simps
  decode_extra_def getUint32_def

lemmas encode_eval =
  encode_def encode_item_def shape_array_def DTYPE_FLAGS_ENCODING_def byteLength_def
  write_component_def write_separator_def write_header_def write_arrays_def write_extra_def
  store_def blob_set_def setUint32_def
  from_numbers_def Let_def swap_element_def
  read_or_zero_def

lemmas stream_eval = pull_def streamFromReadableStream_def

section \<open>What encode writes\<close>

lemma put_Nil [simp]: "put [] st = st"
  by (cases st) (simp add: put_def)











lemma length_setUint32 [simp]: "length (setUint32 v l) = 4"
  by (simp add: setUint32_def del: le_bytes_numeral)



lemma length_component_bytes:
  assumes "owns_buffer sa" and "owns_buffer dat"
  shows "length (component_bytes l (i0, i1, sa, dat, enc, len, ea)) =
     2 + byteLength sa + byteLength dat + (case ea of None \<Rightarrow> 0 | Some e \<Rightarrow> 5 + length e)"
  using assms by (simp add: byteLength_owned contents_owned split: option.split)




















section \<open>What decode reads\<close>

lemma splitChunks_queue:
  assumes "n \<le> length bs"
  shows "splitChunks (queue_of bs) n = (Inr (take n bs), queue_of (drop n bs))"
proof (cases "bs = []")
  case True
  then show ?thesis using assms
    by (simp add: queue_of_def splitChunks_def split_loop.simps)
next
  case False
  show ?thesis
  proof (cases "n = length bs")
    case True
    then show ?thesis using False
      by (simp add: queue_of_def splitChunks_def split_loop.simps Let_def)
  next
    case ne: False
    then have "n < length bs" using assms by simp
    then show ?thesis using False
      by (simp add: queue_of_def splitChunks_def split_loop.simps Let_def)
  qed
qed









lemma queue_of_Nil [simp]: "queue_of [] = []"
  by (simp add: queue_of_def)

lemma length_queue_of: "length (queue_of bs) = 0 \<longleftrightarrow> bs = []"
  by (simp add: queue_of_def)













section \<open>What encode accepts\<close>















section \<open>Errors that decode and the stream cannot report\<close>

text \<open>
  The loop of \<^verbatim>\<open>parseFromUint8ArrayChunks\<close> catches \<^verbatim>\<open>IncompleteChunksError\<close> and returns what
  it has, so no input makes \<^verbatim>\<open>decode\<close> report it. A first header byte is read unsigned, so
  every value from 12 up, the two's complement codes of big-endian records among them, is
  the generic error. A pull on a finished stream with nothing queued closes the stream.
\<close>

lemma parse_loop_never_incomplete:
  "fst (parse_loop P chunks tempChunks result) \<noteq> Inl IncompleteChunksError"
proof (induction P chunks tempChunks result rule: parse_loop.induct)
  case (1 P chunks tempChunks result)
  show ?case
  proof (cases "0 < length chunks")
    case False
    then show ?thesis by (subst parse_loop.simps) simp
  next
    case True
    show ?thesis
    proof (cases "parse_record P chunks tempChunks")
      case (Throw e c t)
      then show ?thesis using True by (subst parse_loop.simps) simp
    next
      case (Ok x c t)
      obtain ne continue where x: "x = (ne, continue)" by (cases x)
      show ?thesis
      proof (cases continue)
        case True
        from "1.IH"[OF \<open>0 < length chunks\<close> Ok[unfolded x] refl True]
        show ?thesis using \<open>0 < length chunks\<close> Ok x True by (subst parse_loop.simps) simp
      next
        case False
        then show ?thesis using True Ok x by (subst parse_loop.simps) simp
      qed
    qed
  qed
qed

lemma decode_never_incomplete: "decode P buf \<noteq> Inl IncompleteChunksError"
  using parse_loop_never_incomplete[of P "[buf]" "[]" "[]"]
  by (simp add: decode_def parseFromUint8ArrayChunks_def)

lemma decode_header_byte_from_12:
  assumes "12 \<le> unat b0"
  shows "decode P (b0 # b1 # rest) = Inl GenericError"
proof -
  have s: "splitChunks [b0 # b1 # rest] 2 = (Inr [b0, b1], queue_of rest)"
    using splitChunks_queue[of 2 "b0 # b1 # rest"] by (simp add: queue_of_def)
  have e: "uint b0 = int (unat b0)"
    by simp
  have "12 \<le> uint b0"
    unfolding e using assms by linarith
  then have h: "parse_header [b0, b1] = Inl GenericError"
    by (simp add: parse_header_def header_dtype_def Let_def)
  have "parse_record P [b0 # b1 # rest] [] = Throw GenericError (queue_of rest) [[b0, b1]]"
    by (simp add: parse_record_def read_chunk_def s h)
  then show ?thesis
    by (simp add: decode_def parseFromUint8ArrayChunks_def parse_loop.simps)
qed

lemma pull_done_closes:
  assumes "st_done s" and "st_nes s = []"
  shows "pull P s = ([Close], s)"
  using assms by (simp add: pull_def)

section \<open>Running the codec on concrete inputs\<close>

text \<open>
  Claim C10. The empty input is not treated alike on the two sides: \<open>decode\<close> of the empty
  buffer returns the empty sequence of records without error, and \<open>encode\<close> of the empty
  sequence of records, whatever the byte order asked for, throws: it allocates an array of
  length \<open>blobLength + numBlobComponents - 1 = -1\<close>.
\<close>

theorem empty_input_asymmetry:
  "decode P [] = Inr [] \<and> encode P [] littleEndian = Inl RangeError"
  by (simp add: decode_eval encode_eval split: option.split)

text \<open>
  Claim C5 says that a negative first header byte selects big-endian and that its magnitude
  is the dtype code. The header bytes are read out of a \<^verbatim>\<open>Uint8Array\<close>, so \<open>i0\<close> is never
  negative: the byte \<open>0xF6\<close>, which is \<open>-10\<close> as a signed byte and heads a big-endian float32
  record, is taken for the dtype code 246 and the call throws.
\<close>

theorem decode_negative_header_byte:
  "decode P [0xF6, 0x00, 0x3F, 0x80, 0x00, 0x00] = Inl GenericError"
  by (simp add: decode_eval)

text \<open>
  Claim C4 says that \<open>decode\<close> fails on a buffer that ends inside a field and returns no
  record then. The \<^verbatim>\<open>catch\<close> of \<open>parseFromUint8ArrayChunks\<close> turns the shortage into a normal
  return: a buffer cut inside the header or inside the data gives the empty sequence, and a
  buffer cut inside its second record gives the first record, each without error.
\<close>

theorem decode_truncated_buffer:
  "decode P [0x0A] = Inr [] \<and>
   decode P [0x0A, 0x02, 0x02, 0x00, 0x03, 0x00, 0xcd, 0xcc, 0x8c] = Inr [] \<and>
   decode P [0x01, 0x00, 0x05, 0x00, 0x01, 0x00] =
     Inr [(\<lparr>shape = [], dType = ''uint8'', data = TypedArray Uint8Array [0x05]\<rparr>, Null)]"
  by (simp add: decode_eval)

text \<open>
  Claim C7 says that a source which ends while the queue holds bytes that complete no
  record makes the stream report an error. A stream fed the single byte \<open>0x0A\<close>: the first
  \<open>pull\<close> finds the source exhausted and sets \<open>streamDone\<close>, with the byte still queued; the
  next \<open>pull\<close> takes the first branch of \<^verbatim>\<open>yieldArrays\<close> and closes the stream. The
  \<^verbatim>\<open>throw new Error("There are still chunks left")\<close> lies behind that branch.
\<close>

theorem truncated_stream_closes:
  "pull P (streamFromReadableStream [[0x0A]]) =
     ([], \<lparr>st_chunks = [[0x0A]], st_nes = [], st_done = True, st_source = []\<rparr>) \<and>
   pulls P 2 (streamFromReadableStream [[0x0A]]) = [Close]"
  by (simp add: stream_eval parseFromUint8ArrayChunks_def parse_loop.simps parse_record_def
      read_chunk_def splitChunks_def split_loop.simps Let_def eval_nat_numeral)

lemma pulls_fixpoint:
  assumes "pull P s = ([Enqueue r], s)"
  shows "pulls P n s = replicate n (Enqueue r)"
  by (induction n) (simp_all add: assms)

lemma stuck_first_pull:
  "pull P (streamFromReadableStream [[1, 0, 5, 0, 1], [0, 6]]) =
     ([Enqueue (scalar_uint8 5)],
      \<lparr>st_chunks = [[1, 0], [], [5], [0], [1]], st_nes = [], st_done = False,
       st_source = [[0, 6]]\<rparr>)"
  by (simp add: stream_eval decode_eval scalar_uint8_def)

lemma stuck_next_pull:
  "pull P \<lparr>st_chunks = [[1, 0], [], [5], [0], [1]], st_nes = [], st_done = False,
       st_source = [[0, 6]]\<rparr> =
     ([Enqueue (scalar_uint8 5)],
      \<lparr>st_chunks = [[1, 0], [], [5], [0], [1]], st_nes = [], st_done = False,
       st_source = [[0, 6]]\<rparr>)"
  by (simp add: stream_eval decode_eval scalar_uint8_def)

lemma bytewise_first_pull:
  "pull P (streamFromReadableStream [[1], [0], [5], [0], [1], [0], [6]]) =
     ([Enqueue (scalar_uint8 5)],
      \<lparr>st_chunks = [], st_nes = [], st_done = False, st_source = [[0], [1], [0], [6]]\<rparr>)"
  by (simp add: stream_eval decode_eval scalar_uint8_def)

lemma bytewise_second_pull:
  "pull P \<lparr>st_chunks = [], st_nes = [], st_done = False, st_source = [[0], [1], [0], [6]]\<rparr> =
     ([Fail GenericError],
      \<lparr>st_chunks = [], st_nes = [], st_done = False, st_source = [[0], [6]]\<rparr>)"
  by (simp add: stream_eval decode_eval scalar_uint8_def)

text \<open>
  Claim C2 says that the fragments of \<open>encode(R)\<close>, fed in order through the streaming
  decoder, give the records of \<open>decode(encode(R))\<close>, each once. For the two scalar records 5
  and 6 the buffer is \<open>01 00 05 00 01 00 06\<close> and \<open>decode\<close> gives both back. Cut after the
  fifth byte, the stream emits the record 5 at every \<open>pull\<close> and never reads the second
  fragment: the parser pushes the record, runs short in the next header, and puts the bytes
  of the record it has pushed back on the queue with the rest of \<open>tempChunks\<close>. Cut into
  single bytes, the stream emits the record 5 as soon as its data byte is there, then takes
  the separator for a header byte and fails.
\<close>

theorem stream_repeats_record:
  "encode P [scalar_uint8 5, scalar_uint8 6] (Some True) = Inr [1, 0, 5, 0, 1, 0, 6] \<and>
   decode P [1, 0, 5, 0, 1, 0, 6] = Inr [scalar_uint8 5, scalar_uint8 6] \<and>
   pulls P (Suc n) (streamFromReadableStream [[1, 0, 5, 0, 1], [0, 6]]) =
     replicate (Suc n) (Enqueue (scalar_uint8 5)) \<and>
   pulls P 2 (streamFromReadableStream [[1], [0], [5], [0], [1], [0], [6]]) =
     [Enqueue (scalar_uint8 5), Fail GenericError]"
proof (intro conjI)
  show "encode P [scalar_uint8 5, scalar_uint8 6] (Some True) = Inr [1, 0, 5, 0, 1, 0, 6]"
    by (simp add: encode_eval scalar_uint8_def eval_nat_numeral)
  show "decode P [1, 0, 5, 0, 1, 0, 6] = Inr [scalar_uint8 5, scalar_uint8 6]"
    by (simp add: decode_eval scalar_uint8_def)
  show "pulls P (Suc n) (streamFromReadableStream [[1, 0, 5, 0, 1], [0, 6]]) =
     replicate (Suc n) (Enqueue (scalar_uint8 5))"
    using pulls_fixpoint[OF stuck_next_pull, where n = n and P = P]
    by (simp add: stuck_first_pull)
  show "pulls P 2 (streamFromReadableStream [[1], [0], [5], [0], [1], [0], [6]]) =
     [Enqueue (scalar_uint8 5), Fail GenericError]"
    by (simp add: numeral_2_eq_2 bytewise_first_pull bytewise_second_pull)
qed









lemma valid_mat_wide: "valid_record (2 ^ 32) (mat, ex)"
  by (simp add: valid_record_def mat_def DTYPE_FLAGS_ENCODING_def dtype_size_def dtype_code_def
      DTYPE_FLAGS_DECODING_def byteLength_def float32_1_1_to_6_6_def)



















end
